theory Spec2Isabelle
  imports Complex_Main "HOL-Library.AList"
begin

section \<open>JavaScript numbers\<close>

text \<open>
  The client is written in JavaScript (\<^verbatim>\<open>src/frontend/app.js\<close>); every figure it computes is a
  JavaScript number. A number is modelled as a finite value or one of the three special values.
  Finite values are taken as reals: rounding and overflow of the double format are not
  modelled, and the two zeros are one. The special values follow the rules of the language:
  a non-zero finite value divided by zero is an infinity, zero divided by zero is \<open>NaN\<close>, and
  \<open>NaN\<close> is absorbing.
\<close>

datatype jsnum = Fin real | PInf | NInf | NaN

text \<open>The binary operator \<^verbatim>\<open>-\<close> on numbers.\<close>

fun js_sub :: "jsnum \<Rightarrow> jsnum \<Rightarrow> jsnum" where
  "js_sub (Fin a) (Fin b) = Fin (a - b)"
| "js_sub (Fin a) PInf = NInf"
| "js_sub (Fin a) NInf = PInf"
| "js_sub PInf (Fin b) = PInf"
| "js_sub PInf NInf = PInf"
| "js_sub NInf (Fin b) = NInf"
| "js_sub NInf PInf = NInf"
| "js_sub _ _ = NaN"

text \<open>The operator \<^verbatim>\<open>*\<close> on numbers.\<close>

fun js_mul :: "jsnum \<Rightarrow> jsnum \<Rightarrow> jsnum" where
  "js_mul (Fin a) (Fin b) = Fin (a * b)"
| "js_mul (Fin a) PInf = (if a = 0 then NaN else if 0 < a then PInf else NInf)"
| "js_mul (Fin a) NInf = (if a = 0 then NaN else if 0 < a then NInf else PInf)"
| "js_mul PInf (Fin b) = (if b = 0 then NaN else if 0 < b then PInf else NInf)"
| "js_mul NInf (Fin b) = (if b = 0 then NaN else if 0 < b then NInf else PInf)"
| "js_mul PInf PInf = PInf"
| "js_mul PInf NInf = NInf"
| "js_mul NInf PInf = NInf"
| "js_mul NInf NInf = PInf"
| "js_mul _ _ = NaN"

text \<open>The operator \<^verbatim>\<open>/\<close> on numbers: division by zero is not an error in JavaScript.\<close>

fun js_div :: "jsnum \<Rightarrow> jsnum \<Rightarrow> jsnum" where
  "js_div (Fin a) (Fin b) =
     (if b \<noteq> 0 then Fin (a / b)
      else if a = 0 then NaN
      else if 0 < a then PInf else NInf)"
| "js_div (Fin a) PInf = Fin 0"
| "js_div (Fin a) NInf = Fin 0"
| "js_div PInf (Fin b) = (if 0 \<le> b then PInf else NInf)"
| "js_div NInf (Fin b) = (if 0 \<le> b then NInf else PInf)"
| "js_div _ _ = NaN"

text \<open>The operator \<^verbatim>\<open>>\<close> on numbers: every comparison with \<open>NaN\<close> is false.\<close>

fun js_gt :: "jsnum \<Rightarrow> jsnum \<Rightarrow> bool" where
  "js_gt (Fin a) (Fin b) = (b < a)"
| "js_gt PInf (Fin b) = True"
| "js_gt PInf NInf = True"
| "js_gt (Fin a) NInf = True"
| "js_gt _ _ = False"

text \<open>A number in a condition: zero and \<open>NaN\<close> are falsy.\<close>

fun truthy_num :: "jsnum \<Rightarrow> bool" where
  "truthy_num (Fin a) = (a \<noteq> 0)"
| "truthy_num NaN = False"
| "truthy_num _ = True"

fun is_finite :: "jsnum \<Rightarrow> bool" where
  "is_finite (Fin a) = True"
| "is_finite _ = False"


section \<open>The price cache\<close>

text \<open>
  \<^verbatim>\<open>let priceCache = {}\<close> is an object keyed by symbol. Its values come from two places:
  \<^verbatim>\<open>loadMarkets\<close> stores the bare number \<^verbatim>\<open>idx.current\<close>, and the \<^verbatim>\<open>price_update\<close> branch of
  \<^verbatim>\<open>ws.onmessage\<close> copies whatever the message carries, by design a record with the fields
  \<^verbatim>\<open>current\<close> and \<^verbatim>\<open>change_pct\<close>. The values modelled are these two shapes and the falsy
  values \<^verbatim>\<open>''\<close>, \<^verbatim>\<open>null\<close> and \<^verbatim>\<open>undefined\<close>. Reading a key the object does not have gives
  \<^verbatim>\<open>undefined\<close>; symbols are assumed not to be names of \<^verbatim>\<open>Object.prototype\<close>.

  The object itself is the list of its properties in the order they were added, each key
  once (\<open>object\<close>). A reader of single properties sees it as the map from keys to values
  (\<open>cache\<close>, the \<open>map_of\<close> of the list).
\<close>

datatype jsval =
    Number jsnum
  | Quote (current: jsnum) (change_pct: jsnum)
  | EmptyString
  | Null
  | Undefined

type_synonym object = "(string \<times> jsval) list"

type_synonym cache = "string \<rightharpoonup> jsval"

text \<open>\<^verbatim>\<open>priceCache[sym]\<close>\<close>

definition lookup :: "cache \<Rightarrow> string \<Rightarrow> jsval" where
  "lookup c k = (case c k of None \<Rightarrow> Undefined | Some v \<Rightarrow> v)"

text \<open>A value in a condition. Every object is truthy, whatever its fields hold.\<close>

fun truthy :: "jsval \<Rightarrow> bool" where
  "truthy (Number n) = truthy_num n"
| "truthy (Quote c g) = True"
| "truthy _ = False"

datatype js_type = TNumber | TString | TObject | TUndefined

fun typeof :: "jsval \<Rightarrow> js_type" where
  "typeof (Number n) = TNumber"
| "typeof (Quote c g) = TObject"
| "typeof EmptyString = TString"
| "typeof Null = TObject"
| "typeof Undefined = TUndefined"

text \<open>
  \<^verbatim>\<open>priceCache[sym] ? (typeof priceCache[sym] === 'object' ? priceCache[sym].current : priceCache[sym]) : null\<close>,
  the \<^verbatim>\<open>livePrice\<close> of \<^verbatim>\<open>updateTradeCostPreview\<close>; \<^verbatim>\<open>refreshPositionPrices\<close> has the same
  test and the same selection. \<open>None\<close> is \<^verbatim>\<open>null\<close>. The truthy values of the model are the
  non-zero numbers and the records, so the selection gives a number.
\<close>

definition livePrice :: "jsval \<Rightarrow> jsnum option" where
  "livePrice v =
     (if truthy v
      then (if typeof v = TObject
            then (case v of Quote c g \<Rightarrow> Some c | _ \<Rightarrow> None)
            else (case v of Number n \<Rightarrow> Some n | _ \<Rightarrow> None))
      else None)"

text \<open>
  \<^verbatim>\<open>Object.assign(priceCache, msg.prices)\<close>: every property of the source object is written
  to the target, in the order of the source. A key the target has keeps its place and takes
  the new value, a new key is added at the end; the other properties of the target stay.
\<close>

definition merge :: "object \<Rightarrow> object \<Rightarrow> object" where
  "merge c updates = fold (\<lambda>(k, v) t. AList.update k v t) updates c"

text \<open>A sequence of merges, in arrival order.\<close>

fun merge_all :: "object \<Rightarrow> object list \<Rightarrow> object" where
  "merge_all c [] = c"
| "merge_all c (u # us) = merge_all (merge c u) us"

text \<open>
  The statement of last-write-wins, from the words of the specification: \<open>v\<close> is the value
  carried for \<open>k\<close> by the last update of the sequence that includes \<open>k\<close>.
\<close>

definition last_at :: "object list \<Rightarrow> string \<Rightarrow> jsval \<Rightarrow> bool" where
  "last_at us k v \<longleftrightarrow>
     (\<exists>i<length us. map_of (us ! i) k = Some v \<and>
        (\<forall>j<length us. i < j \<longrightarrow> map_of (us ! j) k = None))"


section \<open>The portfolio snapshot and its projection\<close>

text \<open>A position of \<^verbatim>\<open>portfolioData.positions\<close>, with the field names of the JSON.\<close>

record position =
  symbol :: string
  quantity :: jsnum
  avg_cost :: jsnum
  current_price :: jsnum
  market_value :: jsnum
  unrealized_pnl :: jsnum
  unrealized_pnl_pct :: jsnum
  weight_pct :: jsnum

text \<open>
  \<^verbatim>\<open>portfolioData\<close>. The snapshot's own \<^verbatim>\<open>unrealized_pnl\<close> is the field
  \<open>total_unrealized_pnl\<close> here, since a position has a field of that name.
  \<^verbatim>\<open>positions\<close> is \<open>None\<close> when the object has no such property (\<^verbatim>\<open>let portfolioData = {}\<close>).
\<close>

record portfolio =
  cash :: jsnum
  total_equity :: jsnum
  total_market_value :: jsnum
  total_unrealized_pnl :: jsnum
  total_return :: jsnum
  total_return_pct :: jsnum
  provider :: string
  positions :: "position list option"

text \<open>The body of the \<^verbatim>\<open>forEach\<close> of \<^verbatim>\<open>refreshPositionPrices\<close>, on one position.\<close>

definition refresh_position :: "cache \<Rightarrow> position \<Rightarrow> position" where
  "refresh_position c p =
     (case livePrice (lookup c (symbol p)) of
        None \<Rightarrow> p
      | Some price \<Rightarrow>
          p\<lparr>current_price := price,
            unrealized_pnl := js_mul (js_sub price (avg_cost p)) (quantity p),
            unrealized_pnl_pct :=
              js_mul (js_div (js_sub price (avg_cost p)) (avg_cost p)) (Fin 100),
            market_value := js_mul price (quantity p)\<rparr>)"

text \<open>
  \<^verbatim>\<open>refreshPositionPrices\<close>, as a function of the two globals it reads,
  \<^verbatim>\<open>priceCache\<close> and \<^verbatim>\<open>portfolioData\<close>, giving the new \<^verbatim>\<open>portfolioData\<close>.
\<close>

definition refreshPositionPrices :: "cache \<Rightarrow> portfolio \<Rightarrow> portfolio" where
  "refreshPositionPrices c d =
     (case positions d of
        None \<Rightarrow> d
      | Some ps \<Rightarrow> d\<lparr>positions := Some (map (refresh_position c) ps)\<rparr>)"


section \<open>The other readers of the cache\<close>

text \<open>
  \<^verbatim>\<open>updateTradeCostPreview\<close>. The three inputs are what the function reads from the form:
  \<open>sym\<close> is the upper-cased symbol, \<open>qtyInput\<close> and \<open>priceInput\<close> are the results of
  \<^verbatim>\<open>parseFloat\<close> (\<open>NaN\<close> for an empty field). \<^verbatim>\<open>a || b\<close> is \<open>a\<close> when \<open>a\<close> is truthy and
  \<open>b\<close> otherwise. The preview is written only when \<^verbatim>\<open>cost > 0\<close>.
\<close>

record preview =
  ref_price :: jsnum
  cost :: jsnum
  shown :: bool

definition updateTradeCostPreview :: "cache \<Rightarrow> string \<Rightarrow> jsnum \<Rightarrow> jsnum \<Rightarrow> preview" where
  "updateTradeCostPreview c sy qtyInput priceInput =
     (let qty = (if truthy_num qtyInput then qtyInput else Fin 0);
          live = livePrice (lookup c sy);
          price =
            (if truthy_num priceInput then priceInput
             else (case live of
                     None \<Rightarrow> Fin 0
                   | Some l \<Rightarrow> if truthy_num l then l else Fin 0))
      in \<lparr>ref_price = price, cost = js_mul qty price,
          shown = js_gt (js_mul qty price) (Fin 0)\<rparr>)"

text \<open>
  \<^verbatim>\<open>updateTicker\<close>. For one cache value \<open>p\<close>,
  \<^verbatim>\<open>price = typeof p === 'object' ? p.current : p\<close> and
  \<^verbatim>\<open>chg = typeof p === 'object' ? p.change_pct : 0\<close>. There is no truthiness test here, and
  \<^verbatim>\<open>typeof null\<close> is \<^verbatim>\<open>'object'\<close>: reading a property of \<^verbatim>\<open>null\<close> throws.
\<close>

datatype js_error = TypeError

definition ticker_price :: "jsval \<Rightarrow> js_error + jsval" where
  "ticker_price p =
     (if typeof p = TObject
      then (case p of Quote c g \<Rightarrow> Inr (Number c) | _ \<Rightarrow> Inl TypeError)
      else Inr p)"

definition ticker_chg :: "jsval \<Rightarrow> js_error + jsnum" where
  "ticker_chg p =
     (if typeof p = TObject
      then (case p of Quote c g \<Rightarrow> Inr g | _ \<Rightarrow> Inl TypeError)
      else Inr (Fin 0))"

text \<open>
  The function maps over \<^verbatim>\<open>Object.keys(priceCache)\<close> and gives the symbol, price and change
  of every item, or throws at the first \<^verbatim>\<open>null\<close>. The markup it builds from the items is
  not modelled.
\<close>

fun updateTicker :: "object \<Rightarrow> js_error + (string \<times> jsval \<times> jsnum) list" where
  "updateTicker [] = Inr []"
| "updateTicker ((sy, p) # c) =
     (case ticker_price p of
        Inl e \<Rightarrow> Inl e
      | Inr price \<Rightarrow>
          (case ticker_chg p of
             Inl e \<Rightarrow> Inl e
           | Inr chg \<Rightarrow>
               (case updateTicker c of
                  Inl e \<Rightarrow> Inl e
                | Inr items \<Rightarrow> Inr ((sy, price, chg) # items))))"


section \<open>The client as a state machine\<close>

text \<open>
  The globals of \<^verbatim>\<open>app.js\<close> and the parts of the browser they act on. A socket is an index
  into \<open>sockets\<close>, which holds each socket's \<^verbatim>\<open>readyState\<close>; \<open>ws\<close> is the global of that
  name. \<open>timers\<close> are the pending \<^verbatim>\<open>setTimeout\<close> calls with the time they are due,
  \<open>intervals\<close> the \<^verbatim>\<open>setInterval\<close> calls with their period; the code never calls
  \<^verbatim>\<open>clearTimeout\<close> or \<^verbatim>\<open>clearInterval\<close>. \<open>pulls\<close> are the requests of \<^verbatim>\<open>loadPortfolio\<close>
  that have been sent and not answered. Time is in milliseconds.
\<close>

datatype readyState = CONNECTING | OPEN | CLOSING | CLOSED

datatype task = Reconnect | Heartbeat | Reconcile

datatype indicator = Connected | Disconnected

record request =
  url :: string
  http_method :: "string option"
  headers :: "string \<rightharpoonup> string"

record app =
  authToken :: string
  currentUser :: "string option"
  localStorage :: "string \<rightharpoonup> string"
  authOverlay :: bool
  ws :: "nat option"
  sockets :: "readyState list"
  statusLabel :: indicator
  timers :: "(nat \<times> task) list"
  intervals :: "(nat \<times> task) list"
  now :: nat
  pings :: "nat list"
  priceCache :: object
  portfolioData :: portfolio
  pulls :: "request list"

text \<open>
  \<^verbatim>\<open>WebSocket.close()\<close>: nothing on a socket that is closing or closed; otherwise the socket
  is closing, and the browser delivers the close event later.
\<close>

definition ws_close :: "nat \<Rightarrow> app \<Rightarrow> app" where
  "ws_close i s =
     (if i < length (sockets s) \<and> (sockets s ! i = CONNECTING \<or> sockets s ! i = OPEN)
      then s\<lparr>sockets := (sockets s)[i := CLOSING]\<rparr>
      else s)"

text \<open>\<^verbatim>\<open>handleLogout\<close>; the toast is not modelled.\<close>

definition handleLogout :: "app \<Rightarrow> app" where
  "handleLogout s =
     (let s1 = s\<lparr>authToken := [], currentUser := None,
                 localStorage := (localStorage s)(''auth_token'' := None),
                 authOverlay := True\<rparr>
      in case ws s1 of None \<Rightarrow> s1 | Some i \<Rightarrow> ws_close i s1)"

text \<open>
  \<^verbatim>\<open>authFetch\<close> up to its \<^verbatim>\<open>await\<close>: the options passed to \<^verbatim>\<open>fetch\<close>. An absent
  \<^verbatim>\<open>options.headers\<close> is the empty map.
\<close>

definition authFetch_request :: "app \<Rightarrow> request \<Rightarrow> request" where
  "authFetch_request s rq =
     (let h1 = (if authToken s \<noteq> []
                then (headers rq)(''Authorization'' \<mapsto> ''Bearer '' @ authToken s)
                else headers rq);
          h2 = (if (case http_method rq of None \<Rightarrow> False
                                         | Some m \<Rightarrow> m \<noteq> [] \<and> m \<noteq> ''GET'')
                   \<and> (h1 ''Content-Type'' = None \<or> h1 ''Content-Type'' = Some [])
                then h1(''Content-Type'' \<mapsto> ''application/json'')
                else h1)
      in rq\<lparr>headers := h2\<rparr>)"

text \<open>
  \<^verbatim>\<open>authFetch\<close> after its \<^verbatim>\<open>await\<close>. \<^verbatim>\<open>fetch\<close> rejects (\<open>NetworkError\<close>) or gives a
  response with a status and a body. The function returns the response or throws.
\<close>

datatype 'b fetch_result = NetworkError | Response nat 'b

datatype error = SessionExpired | FetchFailed

definition authFetch_response :: "'b fetch_result \<Rightarrow> app \<Rightarrow> (error + nat \<times> 'b) \<times> app" where
  "authFetch_response r s =
     (case r of
        NetworkError \<Rightarrow> (Inl FetchFailed, s)
      | Response st b \<Rightarrow>
          if st = 401 then (Inl SessionExpired, handleLogout s)
          else (Inr (st, b), s))"

text \<open>
  \<^verbatim>\<open>loadPortfolio\<close> up to the \<^verbatim>\<open>await\<close> of \<^verbatim>\<open>authFetch('/api/portfolio')\<close>: the request is
  sent. There is no test for a request already under way.
\<close>

definition portfolio_request :: request where
  "portfolio_request = \<lparr>url = ''/api/portfolio'', http_method = None, headers = Map.empty\<rparr>"

definition loadPortfolio :: "app \<Rightarrow> app" where
  "loadPortfolio s = s\<lparr>pulls := pulls s @ [authFetch_request s portfolio_request]\<rparr>"

text \<open>
  The rest of \<^verbatim>\<open>loadPortfolio\<close>, when the answer to pull \<open>k\<close> arrives. The body is
  \<open>None\<close> when \<^verbatim>\<open>res.json()\<close> rejects. An error thrown by \<^verbatim>\<open>authFetch\<close> or by the parse is
  caught and logged; otherwise \<^verbatim>\<open>portfolioData\<close> is replaced by the body, whatever the
  status. The rendering that follows changes no global.
\<close>

definition loadPortfolio_done :: "nat \<Rightarrow> portfolio option fetch_result \<Rightarrow> app \<Rightarrow> app" where
  "loadPortfolio_done k r s =
     (let s1 = s\<lparr>pulls := take k (pulls s) @ drop (Suc k) (pulls s)\<rparr>
      in case authFetch_response r s1 of
           (Inl e, s2) \<Rightarrow> s2
         | (Inr (st, None), s2) \<Rightarrow> s2
         | (Inr (st, Some d), s2) \<Rightarrow> s2\<lparr>portfolioData := d\<rparr>)"

text \<open>
  \<^verbatim>\<open>connectWebSocket\<close>: a new socket, connecting, becomes the global \<^verbatim>\<open>ws\<close>, and the four
  handlers below are attached to it. The address of the socket is not modelled.
\<close>

definition connectWebSocket :: "app \<Rightarrow> app" where
  "connectWebSocket s = s\<lparr>ws := Some (length (sockets s)), sockets := sockets s @ [CONNECTING]\<rparr>"

text \<open>\<^verbatim>\<open>ws.onopen\<close>: the indicator, and a new 30 s heartbeat.\<close>

definition ws_onopen :: "app \<Rightarrow> app" where
  "ws_onopen s = s\<lparr>statusLabel := Connected, intervals := intervals s @ [(30000, Heartbeat)]\<rparr>"

text \<open>\<^verbatim>\<open>ws.onclose\<close>: the indicator, and \<^verbatim>\<open>setTimeout(connectWebSocket, 5000)\<close>.\<close>

definition ws_onclose :: "app \<Rightarrow> app" where
  "ws_onclose s = s\<lparr>statusLabel := Disconnected, timers := timers s @ [(now s + 5000, Reconnect)]\<rparr>"

text \<open>\<^verbatim>\<open>ws.onerror = () => ws.close()\<close>: it closes the socket the global names.\<close>

definition ws_onerror :: "app \<Rightarrow> app" where
  "ws_onerror s = (case ws s of None \<Rightarrow> s | Some i \<Rightarrow> ws_close i s)"

text \<open>
  \<^verbatim>\<open>ws.onmessage\<close>. \<open>Malformed\<close> is a text \<^verbatim>\<open>JSON.parse\<close> rejects: the handler throws before
  it changes anything. A price message is merged into the cache, then \<^verbatim>\<open>updateTicker()\<close>
  runs, then \<^verbatim>\<open>refreshPositionPrices()\<close>; when the ticker throws, the handler ends there
  and the snapshot is not projected. A trade message shows a toast and calls
  \<^verbatim>\<open>loadPortfolio\<close> (and \<^verbatim>\<open>loadTrades\<close> on the trades page, which changes none of these
  globals).
\<close>

datatype message = PriceUpdate object | TradeExecuted | AutoTrade | OtherType | Malformed

definition ws_onmessage :: "message \<Rightarrow> app \<Rightarrow> app" where
  "ws_onmessage m s =
     (case m of
        PriceUpdate prices \<Rightarrow>
          (let c = merge (priceCache s) prices
           in case updateTicker c of
                Inl e \<Rightarrow> s\<lparr>priceCache := c\<rparr>
              | Inr items \<Rightarrow>
                  s\<lparr>priceCache := c,
                    portfolioData := refreshPositionPrices (map_of c) (portfolioData s)\<rparr>)
      | TradeExecuted \<Rightarrow> loadPortfolio s
      | AutoTrade \<Rightarrow> loadPortfolio s
      | OtherType \<Rightarrow> s
      | Malformed \<Rightarrow> s)"

text \<open>The closure of the heartbeat: a ping on the socket the global names, when it is open.\<close>

definition heartbeat :: "app \<Rightarrow> app" where
  "heartbeat s =
     (case ws s of
        None \<Rightarrow> s
      | Some i \<Rightarrow>
          if i < length (sockets s) \<and> sockets s ! i = OPEN
          then s\<lparr>pings := pings s @ [i]\<rparr> else s)"

text \<open>The closure of the 60 s interval set on \<^verbatim>\<open>DOMContentLoaded\<close>.\<close>

definition reconcile_tick :: "app \<Rightarrow> app" where
  "reconcile_tick s = (if authToken s \<noteq> [] then loadPortfolio s else s)"

fun run_task :: "task \<Rightarrow> app \<Rightarrow> app" where
  "run_task Reconnect s = connectWebSocket s"
| "run_task Heartbeat s = heartbeat s"
| "run_task Reconcile s = reconcile_tick s"

text \<open>
  What can happen to the client, one event at a time (the code runs on one thread). The
  browser delivers \<open>Opened\<close> to a connecting socket, \<open>Closed\<close> once to a socket that is not
  closed yet, \<open>Message\<close> to an open socket, and fires a timeout no earlier than it is due.
  \<open>Answered\<close> is the answer to an authorized call other than the portfolio pull.
  \<open>step\<close> is \<open>None\<close> when the event cannot happen in the state.
\<close>

datatype event =
    Opened nat
  | Closed nat
  | Errored nat
  | Message nat message
  | Elapse nat
  | Timeout nat
  | Interval nat
  | PullDone nat "portfolio option fetch_result"
  | Answered "unit fetch_result"
  | Logout

fun step :: "event \<Rightarrow> app \<Rightarrow> app option" where
  "step (Opened i) s =
     (if i < length (sockets s) \<and> sockets s ! i = CONNECTING
      then Some (ws_onopen (s\<lparr>sockets := (sockets s)[i := OPEN]\<rparr>)) else None)"
| "step (Closed i) s =
     (if i < length (sockets s) \<and> sockets s ! i \<noteq> CLOSED
      then Some (ws_onclose (s\<lparr>sockets := (sockets s)[i := CLOSED]\<rparr>)) else None)"
| "step (Errored i) s =
     (if i < length (sockets s) \<and> sockets s ! i \<noteq> CLOSED
      then Some (ws_onerror s) else None)"
| "step (Message i m) s =
     (if i < length (sockets s) \<and> sockets s ! i = OPEN
      then Some (ws_onmessage m s) else None)"
| "step (Elapse n) s = Some (s\<lparr>now := now s + n\<rparr>)"
| "step (Timeout k) s =
     (if k < length (timers s) \<and> fst (timers s ! k) \<le> now s
      then Some (run_task (snd (timers s ! k))
                   (s\<lparr>timers := take k (timers s) @ drop (Suc k) (timers s)\<rparr>))
      else None)"
| "step (Interval k) s =
     (if k < length (intervals s) then Some (run_task (snd (intervals s ! k)) s) else None)"
| "step (PullDone k r) s =
     (if k < length (pulls s) then Some (loadPortfolio_done k r s) else None)"
| "step (Answered r) s = Some (snd (authFetch_response r s))"
| "step Logout s = Some (handleLogout s)"

fun run :: "event list \<Rightarrow> app \<Rightarrow> app option" where
  "run [] s = Some s"
| "run (e # es) s = (case step e s of None \<Rightarrow> None | Some s' \<Rightarrow> run es s')"


section \<open>Concrete data\<close>

text \<open>A position, a snapshot holding it, and a logged-in client whose socket is open.\<close>

definition aapl :: position where
  "aapl = \<lparr>symbol = ''AAPL'', quantity = Fin 10, avg_cost = Fin 150, current_price = Fin 155,
            market_value = Fin 1550, unrealized_pnl = Fin 50, unrealized_pnl_pct = Fin (10 / 3),
            weight_pct = Fin 100\<rparr>"

definition snapshot :: portfolio where
  "snapshot = \<lparr>cash = Fin 1000, total_equity = Fin 2550, total_market_value = Fin 1550,
                total_unrealized_pnl = Fin 50, total_return = Fin 50, total_return_pct = Fin 2,
                provider = ''Local'', positions = Some [aapl]\<rparr>"

definition session :: app where
  "session = \<lparr>authToken = ''tok'', currentUser = Some ''alice'',
               localStorage = [''auth_token'' \<mapsto> ''tok''], authOverlay = False,
               ws = Some 0, sockets = [OPEN], statusLabel = Connected, timers = [],
               intervals = [(60000, Reconcile), (30000, Heartbeat)], now = 0, pings = [],
               priceCache = [], portfolioData = snapshot, pulls = []\<rparr>"

text \<open>
  The formulae of the specification for a position marked at \<open>price\<close>:
  \<open>unrealizedPnl = (currentPrice - avgCost) \<times> quantity\<close>,
  \<open>unrealizedPnlPct = (currentPrice - avgCost) / avgCost \<times> 100\<close>,
  \<open>marketValue = currentPrice \<times> quantity\<close>.
\<close>

definition marked_at :: "jsnum \<Rightarrow> position \<Rightarrow> position" where
  "marked_at price p =
     p\<lparr>current_price := price,
       market_value := js_mul price (quantity p),
       unrealized_pnl := js_mul (js_sub price (avg_cost p)) (quantity p),
       unrealized_pnl_pct :=
         js_mul (js_div (js_sub price (avg_cost p)) (avg_cost p)) (Fin 100)\<rparr>"


section \<open>Facts about the cache readers\<close>

lemma livePrice_Number: "livePrice (Number n) = (if truthy_num n then Some n else None)"
  by (simp add: livePrice_def)

lemma livePrice_Quote: "livePrice (Quote c g) = Some c"
  by (simp add: livePrice_def)

lemma livePrice_falsy: "\<not> truthy v \<Longrightarrow> livePrice v = None"
  by (simp add: livePrice_def)

lemma refresh_position_hit:
  "livePrice (lookup c (symbol p)) = Some price \<Longrightarrow> refresh_position c p = marked_at price p"
  by (simp add: refresh_position_def marked_at_def)

lemma refresh_position_miss:
  "livePrice (lookup c (symbol p)) = None \<Longrightarrow> refresh_position c p = p"
  by (simp add: refresh_position_def)

lemma refresh_position_symbol: "symbol (refresh_position c p) = symbol p"
  by (simp add: refresh_position_def split: option.splits)

lemma refresh_position_quantity: "quantity (refresh_position c p) = quantity p"
  by (simp add: refresh_position_def split: option.splits)

lemma refresh_position_avg_cost: "avg_cost (refresh_position c p) = avg_cost p"
  by (simp add: refresh_position_def split: option.splits)

lemma refresh_position_weight_pct: "weight_pct (refresh_position c p) = weight_pct p"
  by (simp add: refresh_position_def split: option.splits)

lemma refresh_position_idem: "refresh_position c (refresh_position c p) = refresh_position c p"
  by (simp add: refresh_position_def split: option.splits)

lemma js_sub_zero: "js_sub x (Fin 0) = x"
  by (cases x) simp_all

lemma div_zero_not_finite: "\<not> is_finite (js_mul (js_div x (Fin 0)) (Fin 100))"
  by (cases x) simp_all

lemma refresh_position_frame:
  "refresh_position c p =
     p\<lparr>current_price := current_price (refresh_position c p),
       market_value := market_value (refresh_position c p),
       unrealized_pnl := unrealized_pnl (refresh_position c p),
       unrealized_pnl_pct := unrealized_pnl_pct (refresh_position c p)\<rparr>"
  by (simp add: refresh_position_def split: option.splits)

lemma refreshPositionPrices_frame:
  "refreshPositionPrices c d = d\<lparr>positions := map_option (map (refresh_position c)) (positions d)\<rparr>"
  by (simp add: refreshPositionPrices_def split: option.splits)

lemma refreshPositionPrices_cong:
  "(\<And>k. livePrice (lookup c k) = livePrice (lookup c' k)) \<Longrightarrow>
   refreshPositionPrices c d = refreshPositionPrices c' d"
  by (simp add: refreshPositionPrices_def refresh_position_def split: option.splits)

lemma updateTradeCostPreview_cong:
  "livePrice (lookup c k) = livePrice (lookup c' k) \<Longrightarrow>
   updateTradeCostPreview c k q pin = updateTradeCostPreview c' k q pin"
  by (simp add: updateTradeCostPreview_def)

lemma livePrice_lookup_falsy:
  "\<not> truthy v \<Longrightarrow> livePrice (lookup (c(k \<mapsto> v)) k') = livePrice (lookup (c(k := None)) k')"
  by (simp add: lookup_def livePrice_def)

lemma ws_onmessage_priceCache:
  "priceCache (ws_onmessage (PriceUpdate u) s) = merge (priceCache s) u"
  by (simp add: ws_onmessage_def Let_def split: sum.splits)


section \<open>Division by an average cost of zero\<close>

text \<open>
  The position \<open>AAPL\<close> with an average cost of 0 and the cache \<^verbatim>\<open>{AAPL: 160}\<close>: the
  projection divides 160 by 0 and the percentage is \<^verbatim>\<open>Infinity\<close>, not 0.
\<close>

theorem avg_cost_zero_counterexample:
  "avg_cost (aapl\<lparr>avg_cost := Fin 0\<rparr>) = Fin 0 \<and>
   [''AAPL'' \<mapsto> Number (Fin 160)] (symbol (aapl\<lparr>avg_cost := Fin 0\<rparr>)) = Some (Number (Fin 160)) \<and>
   unrealized_pnl_pct
     (refresh_position [''AAPL'' \<mapsto> Number (Fin 160)] (aapl\<lparr>avg_cost := Fin 0\<rparr>)) = PInf \<and>
   unrealized_pnl_pct
     (refresh_position [''AAPL'' \<mapsto> Number (Fin 160)] (aapl\<lparr>avg_cost := Fin 0\<rparr>)) \<noteq> Fin 0"
  by (simp add: refresh_position_def aapl_def lookup_def livePrice_def)

text \<open>
  Claim C1, as the code has it. \<^verbatim>\<open>refreshPositionPrices\<close> has no test on \<^verbatim>\<open>avg_cost\<close>: for a
  position whose cache entry is truthy and whose average cost is 0, the percentage is the
  quotient \<open>(price - 0) / 0 \<times> 100\<close> of JavaScript, which is an infinity or \<open>NaN\<close> and never 0.
\<close>

theorem avg_cost_zero_divides:
  assumes "avg_cost p = Fin 0" and "livePrice (lookup c (symbol p)) = Some price"
  shows "unrealized_pnl_pct (refresh_position c p) = js_mul (js_div price (Fin 0)) (Fin 100) \<and>
         \<not> is_finite (unrealized_pnl_pct (refresh_position c p)) \<and>
         unrealized_pnl_pct (refresh_position c p) \<noteq> Fin 0"
proof -
  have eq: "unrealized_pnl_pct (refresh_position c p) = js_mul (js_div price (Fin 0)) (Fin 100)"
    using assms by (simp add: refresh_position_def js_sub_zero)
  have nf: "\<not> is_finite (js_mul (js_div price (Fin 0)) (Fin 100))"
    by (rule div_zero_not_finite)
  have "js_mul (js_div price (Fin 0)) (Fin 100) \<noteq> Fin 0"
    using nf by (cases "js_mul (js_div price (Fin 0)) (Fin 100)") simp_all
  with eq nf show ?thesis by simp
qed

theorem avg_cost_zero_divides_witness:
  "avg_cost (aapl\<lparr>avg_cost := Fin 0\<rparr>) = Fin 0 \<and>
   livePrice (lookup [''AAPL'' \<mapsto> Quote (Fin 0) (Fin 0)] (symbol (aapl\<lparr>avg_cost := Fin 0\<rparr>)))
     = Some (Fin 0) \<and>
   unrealized_pnl_pct
     (refresh_position [''AAPL'' \<mapsto> Quote (Fin 0) (Fin 0)] (aapl\<lparr>avg_cost := Fin 0\<rparr>)) = NaN \<and>
   \<not> is_finite (unrealized_pnl_pct
     (refresh_position [''AAPL'' \<mapsto> Quote (Fin 0) (Fin 0)] (aapl\<lparr>avg_cost := Fin 0\<rparr>)))"
proof -
  have h1: "avg_cost (aapl\<lparr>avg_cost := Fin 0\<rparr>) = Fin 0"
    by simp
  have h2: "livePrice (lookup [''AAPL'' \<mapsto> Quote (Fin 0) (Fin 0)]
              (symbol (aapl\<lparr>avg_cost := Fin 0\<rparr>))) = Some (Fin 0)"
    by (simp add: aapl_def lookup_def livePrice_def)
  show ?thesis
    using avg_cost_zero_divides [OF h1 h2] h1 h2 by simp
qed


section \<open>The marks of a position\<close>

text \<open>
  The cache \<^verbatim>\<open>{AAPL: 0}\<close> holds a quote for \<open>AAPL\<close>, of price 0. The test
  \<^verbatim>\<open>if (priceCache[p.symbol])\<close> is false for it and the position keeps its price of 155.
\<close>

theorem zero_quote_counterexample:
  "[''AAPL'' \<mapsto> Number (Fin 0)] (symbol aapl) = Some (Number (Fin 0)) \<and>
   current_price aapl = Fin 155 \<and>
   current_price (refresh_position [''AAPL'' \<mapsto> Number (Fin 0)] aapl) = Fin 155 \<and>
   current_price (refresh_position [''AAPL'' \<mapsto> Number (Fin 0)] aapl) \<noteq> Fin 0"
  by (simp add: refresh_position_def aapl_def lookup_def livePrice_def)

text \<open>
  Claim C6, as the code has it. For a position whose cache entry is a record, or a number
  other than 0 and \<open>NaN\<close>, the projection sets \<open>current_price\<close> to the cached price and
  recomputes the three figures by the formulae of the specification (\<open>marked_at\<close>). For the
  position \<open>AAPL\<close> with quantity 10 and average cost 150, after the merge of \<^verbatim>\<open>{AAPL: 160}\<close>
  into the empty cache, the profit is 100, the market value 1600 and the percentage
  \<open>20 / 3 = 6.666...\<close>.
\<close>

theorem refresh_position_formulae:
  "(c (symbol p) = Some (Quote cur g) \<longrightarrow> refresh_position c p = marked_at cur p) \<and>
   (c (symbol p) = Some (Number n) \<and> truthy_num n \<longrightarrow> refresh_position c p = marked_at n p) \<and>
   (symbol p = ''AAPL'' \<and> quantity p = Fin 10 \<and> avg_cost p = Fin 150 \<longrightarrow>
      current_price (refresh_position (map_of (merge [] [(''AAPL'', Number (Fin 160))])) p)
        = Fin 160 \<and>
      unrealized_pnl (refresh_position (map_of (merge [] [(''AAPL'', Number (Fin 160))])) p)
        = Fin 100 \<and>
      market_value (refresh_position (map_of (merge [] [(''AAPL'', Number (Fin 160))])) p)
        = Fin 1600 \<and>
      unrealized_pnl_pct (refresh_position (map_of (merge [] [(''AAPL'', Number (Fin 160))])) p)
        = Fin (20 / 3))"
proof (intro conjI impI)
  assume "c (symbol p) = Some (Quote cur g)"
  then show "refresh_position c p = marked_at cur p"
    by (simp add: refresh_position_hit lookup_def livePrice_Quote)
next
  assume "c (symbol p) = Some (Number n) \<and> truthy_num n"
  then show "refresh_position c p = marked_at n p"
    by (simp add: refresh_position_hit lookup_def livePrice_Number)
next
  assume a: "symbol p = ''AAPL'' \<and> quantity p = Fin 10 \<and> avg_cost p = Fin 150"
  have r: "refresh_position (map_of (merge [] [(''AAPL'', Number (Fin 160))])) p
             = marked_at (Fin 160) p"
    using a by (simp add: refresh_position_hit lookup_def livePrice_Number merge_def)
  show "current_price (refresh_position (map_of (merge [] [(''AAPL'', Number (Fin 160))])) p)
          = Fin 160"
    by (simp add: r marked_at_def)
  show "unrealized_pnl (refresh_position (map_of (merge [] [(''AAPL'', Number (Fin 160))])) p)
          = Fin 100"
    using a by (simp add: r marked_at_def)
  show "market_value (refresh_position (map_of (merge [] [(''AAPL'', Number (Fin 160))])) p)
          = Fin 1600"
    using a by (simp add: r marked_at_def)
  show "unrealized_pnl_pct (refresh_position (map_of (merge [] [(''AAPL'', Number (Fin 160))])) p)
          = Fin (20 / 3)"
    using a by (simp add: r marked_at_def)
qed

theorem refresh_position_formulae_witness:
  "refresh_position [''AAPL'' \<mapsto> Quote (Fin 160) (Fin 1)] aapl = marked_at (Fin 160) aapl \<and>
   refresh_position [''AAPL'' \<mapsto> Number (Fin 160)] aapl = marked_at (Fin 160) aapl \<and>
   unrealized_pnl (refresh_position (map_of (merge [] [(''AAPL'', Number (Fin 160))])) aapl)
     = Fin 100 \<and>
   market_value (refresh_position (map_of (merge [] [(''AAPL'', Number (Fin 160))])) aapl)
     = Fin 1600 \<and>
   unrealized_pnl_pct (refresh_position (map_of (merge [] [(''AAPL'', Number (Fin 160))])) aapl)
     = Fin (20 / 3)"
proof -
  have s: "symbol aapl = ''AAPL'' \<and> quantity aapl = Fin 10 \<and> avg_cost aapl = Fin 150"
    by (simp add: aapl_def)
  have q: "[''AAPL'' \<mapsto> Quote (Fin 160) (Fin 1)] (symbol aapl) = Some (Quote (Fin 160) (Fin 1))"
    by (simp add: aapl_def)
  have n: "[''AAPL'' \<mapsto> Number (Fin 160)] (symbol aapl) = Some (Number (Fin 160)) \<and>
           truthy_num (Fin 160)"
    by (simp add: aapl_def)
  show ?thesis
    using refresh_position_formulae
            [of "[''AAPL'' \<mapsto> Quote (Fin 160) (Fin 1)]" aapl "Fin 160" "Fin 1" "Fin 160"]
          refresh_position_formulae
            [of "[''AAPL'' \<mapsto> Number (Fin 160)]" aapl "Fin 160" "Fin 1" "Fin 160"]
          s q n
    by blast
qed


section \<open>What the projection leaves alone\<close>

text \<open>
  Claim C7. \<^verbatim>\<open>refreshPositionPrices\<close> changes nothing of the snapshot but its positions:
  cash and the totals stay. Of a position it changes nothing but the four derived fields:
  quantity and average cost stay. A position whose symbol is not a key of the cache is
  returned as it was.
\<close>

theorem refreshPositionPrices_frame_effect:
  "cash (refreshPositionPrices c d) = cash d \<and>
   total_equity (refreshPositionPrices c d) = total_equity d \<and>
   total_return (refreshPositionPrices c d) = total_return d \<and>
   total_return_pct (refreshPositionPrices c d) = total_return_pct d \<and>
   total_market_value (refreshPositionPrices c d) = total_market_value d \<and>
   total_unrealized_pnl (refreshPositionPrices c d) = total_unrealized_pnl d \<and>
   refreshPositionPrices c d
     = d\<lparr>positions := map_option (map (refresh_position c)) (positions d)\<rparr> \<and>
   quantity (refresh_position c p) = quantity p \<and>
   avg_cost (refresh_position c p) = avg_cost p \<and>
   refresh_position c p =
     p\<lparr>current_price := current_price (refresh_position c p),
       market_value := market_value (refresh_position c p),
       unrealized_pnl := unrealized_pnl (refresh_position c p),
       unrealized_pnl_pct := unrealized_pnl_pct (refresh_position c p)\<rparr> \<and>
   (c (symbol p) = None \<longrightarrow> refresh_position c p = p)"
proof -
  have m: "c (symbol p) = None \<longrightarrow> refresh_position c p = p"
    by (simp add: refresh_position_miss lookup_def livePrice_def)
  have f: "refreshPositionPrices c d
             = d\<lparr>positions := map_option (map (refresh_position c)) (positions d)\<rparr>"
    by (rule refreshPositionPrices_frame)
  have t: "cash (refreshPositionPrices c d) = cash d \<and>
     total_equity (refreshPositionPrices c d) = total_equity d \<and>
     total_return (refreshPositionPrices c d) = total_return d \<and>
     total_return_pct (refreshPositionPrices c d) = total_return_pct d \<and>
     total_market_value (refreshPositionPrices c d) = total_market_value d \<and>
     total_unrealized_pnl (refreshPositionPrices c d) = total_unrealized_pnl d"
    by (simp add: f)
  show ?thesis
    using refresh_position_frame [of c p] m f t
    by (simp only: refresh_position_quantity refresh_position_avg_cost simp_thms)
qed

theorem refreshPositionPrices_frame_effect_witness:
  "[''MSFT'' \<mapsto> Number (Fin 300)] (symbol aapl) = None \<and>
   refresh_position [''MSFT'' \<mapsto> Number (Fin 300)] aapl = aapl \<and>
   refreshPositionPrices [''MSFT'' \<mapsto> Number (Fin 300)] snapshot = snapshot"
proof -
  have h: "[''MSFT'' \<mapsto> Number (Fin 300)] (symbol aapl) = None"
    by (simp add: aapl_def)
  have r: "refresh_position [''MSFT'' \<mapsto> Number (Fin 300)] aapl = aapl"
    using refreshPositionPrices_frame_effect [of "[''MSFT'' \<mapsto> Number (Fin 300)]" snapshot aapl] h
    by blast
  have "refreshPositionPrices [''MSFT'' \<mapsto> Number (Fin 300)] snapshot = snapshot"
    by (simp add: refreshPositionPrices_frame r snapshot_def)
  with h r show ?thesis by simp
qed


section \<open>Idempotence\<close>

text \<open>
  Claim C8. The projection is a function of the snapshot and the cache, and projecting twice
  with the same cache gives what projecting once gives.
\<close>

theorem refreshPositionPrices_idempotent:
  "refreshPositionPrices c (refreshPositionPrices c d) = refreshPositionPrices c d"
proof (cases "positions d")
  case None
  then show ?thesis
    by (simp add: refreshPositionPrices_def)
next
  case (Some ps)
  have "map (refresh_position c) (map (refresh_position c) ps) = map (refresh_position c) ps"
    by (simp add: refresh_position_idem)
  with Some show ?thesis
    by (simp add: refreshPositionPrices_def)
qed


section \<open>Falsy cache entries\<close>

text \<open>
  The logged-in client receives the \<^verbatim>\<open>price_update\<close>
  \<^verbatim>\<open>{AAPL: {current: 0, change_pct: 0}}\<close>, a quote of price 0 for the symbol of its position.
  The record is an object, so it is truthy: the price of 155 is overwritten by 0, and the
  market value of 1550 with it.
\<close>

theorem pushed_zero_record_counterexample:
  "map_option (map (\<lambda>p. (symbol p, current_price p, market_value p)))
     (positions (portfolioData session)) = Some [(''AAPL'', Fin 155, Fin 1550)] \<and>
   map_option (map (\<lambda>p. (symbol p, current_price p, market_value p)))
     (positions (portfolioData
        (ws_onmessage (PriceUpdate [(''AAPL'', Quote (Fin 0) (Fin 0))]) session)))
     = Some [(''AAPL'', Fin 0, Fin 0)]"
  by (simp add: session_def snapshot_def aapl_def ws_onmessage_def merge_def ticker_price_def
      ticker_chg_def refreshPositionPrices_def refresh_position_def lookup_def livePrice_def)

text \<open>
  Claim C9, as the code has it. The number 0, the empty string, \<^verbatim>\<open>null\<close> and
  \<^verbatim>\<open>undefined\<close> are falsy. With a falsy value under a key, the projection and the trade cost
  preview give what they give when the key is not in the cache at all, and a position of
  that symbol is returned as it was; so it is after a \<^verbatim>\<open>price_update\<close> that carries the bare
  number 0 for the symbol. A \<^verbatim>\<open>price_update\<close> that carries a record whose \<open>current\<close> is 0
  marks the position at 0.
\<close>

theorem falsy_entry_as_absent:
  "\<not> truthy (Number (Fin 0)) \<and> \<not> truthy EmptyString \<and> \<not> truthy Null \<and> \<not> truthy Undefined \<and>
   (\<not> truthy v \<longrightarrow>
      refreshPositionPrices (c(k \<mapsto> v)) d = refreshPositionPrices (c(k := None)) d \<and>
      updateTradeCostPreview (c(k \<mapsto> v)) k q pin
        = updateTradeCostPreview (c(k := None)) k q pin) \<and>
   (\<not> truthy v \<and> c (symbol p) = Some v \<longrightarrow> refresh_position c p = p) \<and>
   (symbol p = k \<longrightarrow>
      refresh_position
        (map_of (priceCache (ws_onmessage (PriceUpdate [(k, Number (Fin 0))]) s))) p = p \<and>
      refresh_position
        (map_of (priceCache (ws_onmessage (PriceUpdate [(k, Quote (Fin 0) g)]) s))) p
        = marked_at (Fin 0) p)"
proof -
  have a: "\<not> truthy v \<longrightarrow>
      refreshPositionPrices (c(k \<mapsto> v)) d = refreshPositionPrices (c(k := None)) d \<and>
      updateTradeCostPreview (c(k \<mapsto> v)) k q pin = updateTradeCostPreview (c(k := None)) k q pin"
    using refreshPositionPrices_cong [of "c(k \<mapsto> v)" "c(k := None)" d]
      updateTradeCostPreview_cong [of "c(k \<mapsto> v)" k "c(k := None)" q pin]
      livePrice_lookup_falsy [of v c k]
    by blast
  have b: "\<not> truthy v \<and> c (symbol p) = Some v \<longrightarrow> refresh_position c p = p"
    by (simp add: refresh_position_miss lookup_def livePrice_falsy)
  have c: "symbol p = k \<longrightarrow>
      refresh_position
        (map_of (priceCache (ws_onmessage (PriceUpdate [(k, Number (Fin 0))]) s))) p = p"
    by (simp add: ws_onmessage_priceCache merge_def update_conv' refresh_position_miss
        lookup_def livePrice_def)
  have d: "symbol p = k \<longrightarrow>
      refresh_position
        (map_of (priceCache (ws_onmessage (PriceUpdate [(k, Quote (Fin 0) g)]) s))) p
        = marked_at (Fin 0) p"
    by (simp add: ws_onmessage_priceCache merge_def update_conv' refresh_position_hit
        lookup_def livePrice_def)
  show ?thesis using a b c d by simp
qed

theorem falsy_entry_as_absent_witness:
  "\<not> truthy Null \<and>
   refreshPositionPrices [''AAPL'' \<mapsto> Null] snapshot = refreshPositionPrices Map.empty snapshot \<and>
   [''AAPL'' \<mapsto> Number (Fin 0)] (symbol aapl) = Some (Number (Fin 0)) \<and>
   refresh_position [''AAPL'' \<mapsto> Number (Fin 0)] aapl = aapl \<and>
   refresh_position
     (map_of (priceCache (ws_onmessage (PriceUpdate [(''AAPL'', Number (Fin 0))]) session)))
     aapl = aapl \<and>
   refresh_position
     (map_of (priceCache (ws_onmessage (PriceUpdate [(''AAPL'', Quote (Fin 0) (Fin 0))]) session)))
     aapl = marked_at (Fin 0) aapl"
proof -
  have t: "\<not> truthy Null" "\<not> truthy (Number (Fin 0))"
    by simp_all
  have h: "[''AAPL'' \<mapsto> Number (Fin 0)] (symbol aapl) = Some (Number (Fin 0))"
    and k: "symbol aapl = ''AAPL''"
    by (simp_all add: aapl_def)
  have e: "Map.empty(''AAPL'' := None) = (Map.empty :: cache)"
    by simp
  show ?thesis
    using falsy_entry_as_absent
            [of Null Map.empty "''AAPL''" snapshot "Fin 1" NaN aapl session "Fin 0"]
      falsy_entry_as_absent
        [of "Number (Fin 0)" "[''AAPL'' \<mapsto> Number (Fin 0)]" "''AAPL''" snapshot "Fin 1" NaN
           aapl session "Fin 0"]
      t h k e
    by simp
qed


section \<open>The two shapes of a cache value\<close>

text \<open>
  The caches \<^verbatim>\<open>{AAPL: 0}\<close> and \<^verbatim>\<open>{AAPL: {current: 0, change_pct: 0}}\<close> hold the same price
  in the two shapes. The projection skips the first and applies the second.
\<close>

theorem shapes_differ_at_zero_counterexample:
  "current_price (refresh_position [''AAPL'' \<mapsto> Number (Fin 0)] aapl) = Fin 155 \<and>
   current_price (refresh_position [''AAPL'' \<mapsto> Quote (Fin 0) (Fin 0)] aapl) = Fin 0 \<and>
   refresh_position [''AAPL'' \<mapsto> Number (Fin 0)] aapl
     \<noteq> refresh_position [''AAPL'' \<mapsto> Quote (Fin 0) (Fin 0)] aapl"
proof -
  have 1: "current_price (refresh_position [''AAPL'' \<mapsto> Number (Fin 0)] aapl) = Fin 155"
    by (simp add: refresh_position_def aapl_def lookup_def livePrice_def)
  have 2: "current_price (refresh_position [''AAPL'' \<mapsto> Quote (Fin 0) (Fin 0)] aapl) = Fin 0"
    by (simp add: refresh_position_def aapl_def lookup_def livePrice_def)
  from 1 2 have "refresh_position [''AAPL'' \<mapsto> Number (Fin 0)] aapl
     \<noteq> refresh_position [''AAPL'' \<mapsto> Quote (Fin 0) (Fin 0)] aapl"
    by auto
  with 1 2 show ?thesis by simp
qed

text \<open>
  Claim C10, as the code has it. A record gives its \<open>current\<close> field and a truthy number
  gives itself. The ticker shows the same price for the number \<open>n\<close> and for a record whose
  \<open>current\<close> is \<open>n\<close>, and the trade cost preview computes the same figures for both, whatever
  \<open>n\<close> is. The projection gives the same snapshot for both when \<open>n\<close> is truthy, that is,
  neither 0 nor \<open>NaN\<close>.
\<close>

theorem both_shapes_same_price:
  "livePrice (Quote n g) = Some n \<and>
   (truthy_num n \<longrightarrow> livePrice (Number n) = Some n) \<and>
   ticker_price (Number n) = Inr (Number n) \<and>
   ticker_price (Quote n g) = Inr (Number n) \<and>
   updateTradeCostPreview (c(k \<mapsto> Number n)) k q pin
     = updateTradeCostPreview (c(k \<mapsto> Quote n g)) k q pin \<and>
   (truthy_num n \<longrightarrow>
      refreshPositionPrices (c(k \<mapsto> Number n)) d = refreshPositionPrices (c(k \<mapsto> Quote n g)) d)"
proof -
  have t: "updateTradeCostPreview (c(k \<mapsto> Number n)) k q pin
     = updateTradeCostPreview (c(k \<mapsto> Quote n g)) k q pin"
    by (simp add: updateTradeCostPreview_def lookup_def livePrice_def)
  have p: "truthy_num n \<longrightarrow>
      refreshPositionPrices (c(k \<mapsto> Number n)) d = refreshPositionPrices (c(k \<mapsto> Quote n g)) d"
  proof
    assume n: "truthy_num n"
    have "\<And>k'. livePrice (lookup (c(k \<mapsto> Number n)) k')
                = livePrice (lookup (c(k \<mapsto> Quote n g)) k')"
      using n by (simp add: lookup_def livePrice_def)
    then show "refreshPositionPrices (c(k \<mapsto> Number n)) d
                 = refreshPositionPrices (c(k \<mapsto> Quote n g)) d"
      by (rule refreshPositionPrices_cong)
  qed
  show ?thesis
    using t p by (simp add: ticker_price_def livePrice_def)
qed

theorem both_shapes_same_price_witness:
  "truthy_num (Fin 160) \<and>
   livePrice (Number (Fin 160)) = Some (Fin 160) \<and>
   refreshPositionPrices [''AAPL'' \<mapsto> Number (Fin 160)] snapshot
     = refreshPositionPrices [''AAPL'' \<mapsto> Quote (Fin 160) (Fin 1)] snapshot \<and>
   updateTradeCostPreview [''AAPL'' \<mapsto> Number (Fin 160)] ''AAPL'' (Fin 2) NaN
     = updateTradeCostPreview [''AAPL'' \<mapsto> Quote (Fin 160) (Fin 1)] ''AAPL'' (Fin 2) NaN \<and>
   cost (updateTradeCostPreview [''AAPL'' \<mapsto> Number (Fin 160)] ''AAPL'' (Fin 2) NaN) = Fin 320"
proof -
  have h: "truthy_num (Fin 160)"
    by simp
  have c: "cost (updateTradeCostPreview [''AAPL'' \<mapsto> Number (Fin 160)] ''AAPL'' (Fin 2) NaN)
             = Fin 320"
    by (simp add: updateTradeCostPreview_def lookup_def livePrice_def)
  show ?thesis
    using both_shapes_same_price [of "Fin 160" "Fin 1" Map.empty "''AAPL''" "Fin 2" NaN snapshot]
      h c
    by simp
qed


section \<open>Last write wins\<close>

lemma map_of_merge:
  "distinct (map fst u) \<Longrightarrow> map_of (merge c u) = map_of c ++ map_of u"
proof (induction u arbitrary: c)
  case Nil
  show ?case by (simp add: merge_def)
next
  case (Cons kv u)
  obtain k v where kv: "kv = (k, v)" by (cases kv)
  from Cons.prems kv have d: "distinct (map fst u)" and n: "map_of u k = None"
    by (simp_all add: map_of_eq_None_iff)
  have "map_of (merge c (kv # u)) = map_of (merge (AList.update k v c) u)"
    by (simp add: merge_def kv)
  also have "\<dots> = map_of (AList.update k v c) ++ map_of u"
    by (rule Cons.IH [OF d])
  also have "\<dots> = (map_of c)(k \<mapsto> v) ++ map_of u"
    by (simp only: update_conv')
  also have "\<dots> = map_of c ++ map_of (kv # u)"
    using n by (auto simp: kv map_add_def fun_eq_iff split: option.splits)
  finally show ?case .
qed

lemma merge_absent_key: "map_of u k = None \<Longrightarrow> map_of (merge c u) k = map_of c k"
proof (induction u arbitrary: c)
  case Nil
  show ?case by (simp add: merge_def)
next
  case (Cons kv u)
  obtain k' v where kv: "kv = (k', v)" by (cases kv)
  from Cons.prems kv have n: "map_of u k = None" and ne: "k' \<noteq> k"
    by (auto split: if_splits)
  have "merge c (kv # u) = merge (AList.update k' v c) u"
    by (simp add: merge_def kv)
  then show ?case
    using Cons.IH [OF n, of "AList.update k' v c"] ne by (simp add: update_conv')
qed

lemma merge_key:
  "distinct (map fst u) \<Longrightarrow>
   map_of (merge c u) k = (case map_of u k of None \<Rightarrow> map_of c k | Some v \<Rightarrow> Some v)"
  by (simp add: map_of_merge map_add_def)

lemma merge_all_snoc: "merge_all c (us @ [u]) = merge (merge_all c us) u"
  by (induction us arbitrary: c) simp_all

lemma merge_all_None:
  "\<forall>u \<in> set us. distinct (map fst u) \<Longrightarrow>
   map_of (merge_all [] us) k = None \<longleftrightarrow> (\<forall>u \<in> set us. map_of u k = None)"
proof (induction us rule: rev_induct)
  case Nil
  show ?case by simp
next
  case (snoc u us)
  then show ?case
    by (auto simp: merge_all_snoc merge_key split: option.splits)
qed

lemma last_at_snoc_None:
  assumes "map_of u k = None"
  shows "last_at (us @ [u]) k v \<longleftrightarrow> last_at us k v"
proof
  assume "last_at (us @ [u]) k v"
  then obtain i where i: "i < Suc (length us)" "map_of ((us @ [u]) ! i) k = Some v"
    and later: "\<And>j. j < Suc (length us) \<Longrightarrow> i < j \<Longrightarrow> map_of ((us @ [u]) ! j) k = None"
    by (auto simp: last_at_def)
  have "i \<noteq> length us"
    using i(2) assms by (auto simp: nth_append)
  with i(1) have il: "i < length us" by simp
  with i(2) have v: "map_of (us ! i) k = Some v" by (simp add: nth_append)
  have "map_of (us ! j) k = None" if "j < length us" "i < j" for j
    using later [of j] that by (simp add: nth_append)
  with il v show "last_at us k v"
    by (auto simp: last_at_def)
next
  assume "last_at us k v"
  then obtain i where il: "i < length us" and v: "map_of (us ! i) k = Some v"
    and later: "\<And>j. j < length us \<Longrightarrow> i < j \<Longrightarrow> map_of (us ! j) k = None"
    by (auto simp: last_at_def)
  have "map_of ((us @ [u]) ! j) k = None" if "j < length (us @ [u])" "i < j" for j
  proof (cases "j < length us")
    case True
    with later [of j] that show ?thesis by (simp add: nth_append)
  next
    case False
    with that have "j = length us" by simp
    with assms show ?thesis by simp
  qed
  moreover have "map_of ((us @ [u]) ! i) k = Some v"
    using il v by (simp add: nth_append)
  moreover have "i < length (us @ [u])"
    using il by simp
  ultimately show "last_at (us @ [u]) k v"
    unfolding last_at_def by blast
qed

lemma last_at_snoc_Some:
  assumes "map_of u k = Some w"
  shows "last_at (us @ [u]) k v \<longleftrightarrow> w = v"
proof
  assume "last_at (us @ [u]) k v"
  then obtain i where i: "i < Suc (length us)" "map_of ((us @ [u]) ! i) k = Some v"
    and later: "\<And>j. j < Suc (length us) \<Longrightarrow> i < j \<Longrightarrow> map_of ((us @ [u]) ! j) k = None"
    by (auto simp: last_at_def)
  have "i = length us"
  proof (rule ccontr)
    assume "i \<noteq> length us"
    with i(1) have "i < length us" by simp
    with later [of "length us"] have "map_of ((us @ [u]) ! length us) k = None" by simp
    with assms show False by simp
  qed
  with i(2) assms show "w = v" by simp
next
  assume "w = v"
  with assms have "map_of ((us @ [u]) ! length us) k = Some v" by simp
  moreover have "\<forall>j<length (us @ [u]). length us < j \<longrightarrow> map_of ((us @ [u]) ! j) k = None"
    by simp
  moreover have "length us < length (us @ [u])" by simp
  ultimately show "last_at (us @ [u]) k v"
    unfolding last_at_def by blast
qed

lemma merge_all_Some:
  "\<forall>u \<in> set us. distinct (map fst u) \<Longrightarrow>
   map_of (merge_all [] us) k = Some v \<longleftrightarrow> last_at us k v"
proof (induction us rule: rev_induct)
  case Nil
  show ?case by (simp add: last_at_def)
next
  case (snoc u us)
  then have d: "distinct (map fst u)" and ds: "\<forall>u \<in> set us. distinct (map fst u)"
    by simp_all
  show ?case
  proof (cases "map_of u k")
    case None
    with snoc.IH [OF ds] d show ?thesis
      by (simp add: merge_all_snoc merge_key last_at_snoc_None)
  next
    case (Some w)
    with d show ?thesis
      by (simp add: merge_all_snoc merge_key last_at_snoc_Some)
  qed
qed

text \<open>
  Claim C5. An update is an object, so it has each key once. After any sequence of merges
  into the empty cache, the cache holds \<open>v\<close> for a symbol exactly when \<open>v\<close> is what the last
  update that includes the symbol carries for it, and holds nothing exactly when no update
  includes the symbol. One merge leaves the symbols it does not include as they were and
  overwrites the others; the \<^verbatim>\<open>price_update\<close> handler is this merge.
\<close>

theorem merge_last_write_wins:
  "((\<forall>u \<in> set us. distinct (map fst u)) \<longrightarrow>
      (map_of (merge_all [] us) k = Some v \<longleftrightarrow>
         (\<exists>i<length us. map_of (us ! i) k = Some v \<and>
            (\<forall>j<length us. i < j \<longrightarrow> map_of (us ! j) k = None))) \<and>
      (map_of (merge_all [] us) k = None \<longleftrightarrow> (\<forall>u \<in> set us. map_of u k = None))) \<and>
   (map_of u k = None \<longrightarrow> map_of (merge c u) k = map_of c k) \<and>
   (distinct (map fst u) \<and> map_of u k = Some v \<longrightarrow> map_of (merge c u) k = Some v) \<and>
   priceCache (ws_onmessage (PriceUpdate u) s) = merge (priceCache s) u"
proof -
  have a: "(\<forall>u \<in> set us. distinct (map fst u)) \<longrightarrow>
      (map_of (merge_all [] us) k = Some v \<longleftrightarrow>
         (\<exists>i<length us. map_of (us ! i) k = Some v \<and>
            (\<forall>j<length us. i < j \<longrightarrow> map_of (us ! j) k = None))) \<and>
      (map_of (merge_all [] us) k = None \<longleftrightarrow> (\<forall>u \<in> set us. map_of u k = None))"
    using merge_all_Some [of us k v] merge_all_None [of us k]
    by (simp add: last_at_def)
  have b: "map_of u k = None \<longrightarrow> map_of (merge c u) k = map_of c k"
    by (simp add: merge_absent_key)
  have c: "distinct (map fst u) \<and> map_of u k = Some v \<longrightarrow> map_of (merge c u) k = Some v"
    by (simp add: merge_key)
  show ?thesis
    using a b c by (simp only: ws_onmessage_priceCache simp_thms)
qed

theorem merge_last_write_wins_witness:
  "map_of (merge_all []
     [[(''AAPL'', Number (Fin 1)), (''MSFT'', Number (Fin 2))], [(''AAPL'', Number (Fin 3))]])
     ''AAPL'' = Some (Number (Fin 3)) \<and>
   map_of (merge_all []
     [[(''AAPL'', Number (Fin 1)), (''MSFT'', Number (Fin 2))], [(''AAPL'', Number (Fin 3))]])
     ''MSFT'' = Some (Number (Fin 2)) \<and>
   map_of (merge_all []
     [[(''AAPL'', Number (Fin 1)), (''MSFT'', Number (Fin 2))], [(''AAPL'', Number (Fin 3))]])
     ''TSLA'' = None \<and>
   map_of (merge [(''MSFT'', Number (Fin 2))] [(''AAPL'', Number (Fin 3))]) ''MSFT''
     = Some (Number (Fin 2)) \<and>
   map_of (merge [(''AAPL'', Number (Fin 1))] [(''AAPL'', Number (Fin 3))]) ''AAPL''
     = Some (Number (Fin 3))"
proof -
  let ?u1 = "[(''AAPL'', Number (Fin 1)), (''MSFT'', Number (Fin 2))] :: object"
  let ?u2 = "[(''AAPL'', Number (Fin 3))] :: object"
  have ds: "\<forall>u \<in> set [?u1, ?u2]. distinct (map fst u)"
    by simp
  have a: "\<exists>i<length [?u1, ?u2]. map_of ([?u1, ?u2] ! i) ''AAPL'' = Some (Number (Fin 3)) \<and>
             (\<forall>j<length [?u1, ?u2]. i < j \<longrightarrow> map_of ([?u1, ?u2] ! j) ''AAPL'' = None)"
    by (rule exI [of _ 1]) simp
  have m: "\<exists>i<length [?u1, ?u2]. map_of ([?u1, ?u2] ! i) ''MSFT'' = Some (Number (Fin 2)) \<and>
             (\<forall>j<length [?u1, ?u2]. i < j \<longrightarrow> map_of ([?u1, ?u2] ! j) ''MSFT'' = None)"
    by (rule exI [of _ 0]) (simp add: less_Suc_eq)
  have t: "\<forall>u \<in> set [?u1, ?u2]. map_of u ''TSLA'' = None"
    by simp
  have f: "map_of ?u2 ''MSFT'' = None"
    and g: "distinct (map fst ?u2) \<and> map_of ?u2 ''AAPL'' = Some (Number (Fin 3))"
    by simp_all
  note A = merge_last_write_wins
             [of "[?u1, ?u2]" "''AAPL''" "Number (Fin 3)" ?u2 ?u1 session, THEN conjunct1,
              THEN mp, OF ds]
  note M = merge_last_write_wins
             [of "[?u1, ?u2]" "''MSFT''" "Number (Fin 2)" ?u2 ?u1 session, THEN conjunct1,
              THEN mp, OF ds]
  note T = merge_last_write_wins
             [of "[?u1, ?u2]" "''TSLA''" "Number (Fin 2)" ?u2 ?u1 session, THEN conjunct1,
              THEN mp, OF ds]
  have 1: "map_of (merge_all [] [?u1, ?u2]) ''AAPL'' = Some (Number (Fin 3))"
    using A [THEN conjunct1] a by (rule iffD2)
  have 2: "map_of (merge_all [] [?u1, ?u2]) ''MSFT'' = Some (Number (Fin 2))"
    using M [THEN conjunct1] m by (rule iffD2)
  have 3: "map_of (merge_all [] [?u1, ?u2]) ''TSLA'' = None"
    using T [THEN conjunct2] t by (rule iffD2)
  have 4: "map_of (merge [(''MSFT'', Number (Fin 2))] ?u2) ''MSFT'' = Some (Number (Fin 2))"
    using merge_last_write_wins
            [of "[?u1, ?u2]" "''MSFT''" "Number (Fin 2)" ?u2 "[(''MSFT'', Number (Fin 2))]"
             session, THEN conjunct2, THEN conjunct1] f
    by simp
  have 5: "map_of (merge [(''AAPL'', Number (Fin 1))] ?u2) ''AAPL'' = Some (Number (Fin 3))"
    using merge_last_write_wins
            [of "[?u1, ?u2]" "''AAPL''" "Number (Fin 3)" ?u2 "[(''AAPL'', Number (Fin 1))]"
             session, THEN conjunct2, THEN conjunct2, THEN conjunct1] g
    by (rule mp)
  show ?thesis
    by (intro conjI) (rule 1 2 3 4 5)+
qed


section \<open>Facts about the handlers\<close>

lemma ws_close_frame:
  "authToken (ws_close i s) = authToken s" "currentUser (ws_close i s) = currentUser s"
  "localStorage (ws_close i s) = localStorage s" "ws (ws_close i s) = ws s"
  "timers (ws_close i s) = timers s" "intervals (ws_close i s) = intervals s"
  "portfolioData (ws_close i s) = portfolioData s" "pulls (ws_close i s) = pulls s"
  "length (sockets (ws_close i s)) = length (sockets s)"
  by (simp_all add: ws_close_def)

lemma ws_close_state:
  "i < length (sockets s) \<Longrightarrow>
   sockets (ws_close i s) ! i = CLOSING \<or> sockets (ws_close i s) ! i = CLOSED"
  by (cases "sockets s ! i") (simp_all add: ws_close_def)

lemma ws_close_keeps_closed:
  "j < length (sockets s) \<Longrightarrow> sockets s ! j = CLOSED \<Longrightarrow> sockets (ws_close i s) ! j = CLOSED"
  by (auto simp: ws_close_def nth_list_update)

lemma handleLogout_frame:
  "authToken (handleLogout s) = []" "currentUser (handleLogout s) = None"
  "localStorage (handleLogout s) ''auth_token'' = None" "ws (handleLogout s) = ws s"
  "timers (handleLogout s) = timers s" "intervals (handleLogout s) = intervals s"
  "portfolioData (handleLogout s) = portfolioData s" "pulls (handleLogout s) = pulls s"
  "length (sockets (handleLogout s)) = length (sockets s)"
  by (simp_all add: handleLogout_def Let_def ws_close_frame split: option.splits)

lemma handleLogout_feed:
  assumes "ws s = Some i" "i < length (sockets s)"
  shows "sockets (handleLogout s) ! i = CLOSING \<or> sockets (handleLogout s) ! i = CLOSED"
proof -
  let ?s1 = "s\<lparr>authToken := [], currentUser := None,
                 localStorage := (localStorage s)(''auth_token'' := None),
                 authOverlay := True\<rparr>"
  have "handleLogout s = ws_close i ?s1"
    using assms by (simp add: handleLogout_def)
  moreover have "i < length (sockets ?s1)" using assms by simp
  ultimately show ?thesis using ws_close_state [of i ?s1] by simp
qed

lemma handleLogout_keeps_closed:
  "j < length (sockets s) \<Longrightarrow> sockets s ! j = CLOSED \<Longrightarrow> sockets (handleLogout s) ! j = CLOSED"
  by (simp add: handleLogout_def Let_def ws_close_keeps_closed split: option.splits)

lemma authFetch_response_token:
  "authToken s = [] \<Longrightarrow> authToken (snd (authFetch_response r s)) = []"
  by (cases r) (simp_all add: authFetch_response_def handleLogout_frame)

lemma loadPortfolio_done_token:
  "authToken s = [] \<Longrightarrow> authToken (loadPortfolio_done k r s) = []"
  by (cases r)
    (auto simp: loadPortfolio_done_def authFetch_response_def handleLogout_frame Let_def
      split: option.splits)

lemma run_task_token: "authToken s = [] \<Longrightarrow> authToken (run_task t s) = []"
  by (cases t)
    (simp_all add: connectWebSocket_def heartbeat_def reconcile_tick_def split: option.splits)

lemma ws_onmessage_token: "authToken (ws_onmessage m s) = authToken s"
  by (cases m) (simp_all add: ws_onmessage_def Let_def loadPortfolio_def split: sum.splits)

lemma step_token:
  assumes "authToken s = []" and "step e s = Some s'"
  shows "authToken s' = []"
proof (cases e)
  case (Opened i)
  with assms show ?thesis by (auto simp: ws_onopen_def split: if_splits)
next
  case (Closed i)
  with assms show ?thesis by (auto simp: ws_onclose_def split: if_splits)
next
  case (Errored i)
  with assms show ?thesis by (auto simp: ws_onerror_def ws_close_frame split: if_splits option.splits)
next
  case (Message i m)
  with assms show ?thesis by (auto simp: ws_onmessage_token split: if_splits)
next
  case (Elapse n)
  with assms show ?thesis by auto
next
  case (Timeout k)
  with assms show ?thesis by (auto simp: run_task_token split: if_splits)
next
  case (Interval k)
  with assms show ?thesis by (auto simp: run_task_token split: if_splits)
next
  case (PullDone k r)
  with assms show ?thesis by (auto simp: loadPortfolio_done_token split: if_splits)
next
  case (Answered r)
  with assms show ?thesis by (auto simp: authFetch_response_token)
next
  case Logout
  with assms show ?thesis by (auto simp: handleLogout_frame)
qed

lemma run_task_keeps_closed:
  "j < length (sockets s) \<Longrightarrow> sockets s ! j = CLOSED \<Longrightarrow>
   j < length (sockets (run_task t s)) \<and> sockets (run_task t s) ! j = CLOSED"
  by (cases t)
    (auto simp: connectWebSocket_def heartbeat_def reconcile_tick_def loadPortfolio_def
      nth_append split: option.splits)

lemma authFetch_response_keeps_closed:
  "j < length (sockets s) \<Longrightarrow> sockets s ! j = CLOSED \<Longrightarrow>
   j < length (sockets (snd (authFetch_response r s))) \<and>
   sockets (snd (authFetch_response r s)) ! j = CLOSED"
  by (cases r)
    (simp_all add: authFetch_response_def handleLogout_frame handleLogout_keeps_closed)

lemma loadPortfolio_done_sockets:
  "sockets (loadPortfolio_done k r s) = sockets (snd (authFetch_response r s))"
  by (cases r)
    (auto simp: loadPortfolio_done_def authFetch_response_def handleLogout_def ws_close_def
      Let_def split: option.splits)

lemma ws_onmessage_sockets: "sockets (ws_onmessage m s) = sockets s"
  by (cases m) (simp_all add: ws_onmessage_def Let_def loadPortfolio_def split: sum.splits)

lemma step_keeps_closed:
  assumes "j < length (sockets s)" and "sockets s ! j = CLOSED" and "step e s = Some s'"
  shows "j < length (sockets s') \<and> sockets s' ! j = CLOSED"
proof (cases e)
  case (Opened i)
  with assms show ?thesis
    by (auto simp: ws_onopen_def nth_list_update split: if_splits)
next
  case (Closed i)
  with assms show ?thesis
    by (auto simp: ws_onclose_def nth_list_update split: if_splits)
next
  case (Errored i)
  with assms show ?thesis
    by (auto simp: ws_onerror_def ws_close_frame ws_close_keeps_closed
        split: if_splits option.splits)
next
  case (Message i m)
  with assms show ?thesis by (auto simp: ws_onmessage_sockets split: if_splits)
next
  case (Elapse n)
  with assms show ?thesis by auto
next
  case (Timeout k)
  with assms run_task_keeps_closed [of j "s\<lparr>timers := take k (timers s) @ drop (Suc k) (timers s)\<rparr>"]
  show ?thesis by (auto split: if_splits)
next
  case (Interval k)
  with assms run_task_keeps_closed [of j s] show ?thesis by (auto split: if_splits)
next
  case (PullDone k r)
  with assms authFetch_response_keeps_closed [of j s r] show ?thesis
    by (auto simp: loadPortfolio_done_sockets split: if_splits)
next
  case (Answered r)
  with assms authFetch_response_keeps_closed [of j s r] show ?thesis by auto
next
  case Logout
  with assms show ?thesis by (auto simp: handleLogout_frame handleLogout_keeps_closed)
qed


section \<open>Reconnection\<close>

text \<open>
  The logged-in client logs out, the socket closes, five seconds pass and the timeout
  fires: the credential is gone, a second socket is connecting, and the heartbeat interval
  set when the first socket opened is still registered.
\<close>

theorem logout_then_reconnect_counterexample:
  "map_option (\<lambda>s. (authToken s, ws s, sockets s, intervals s))
     (run [Logout, Closed 0, Elapse 5000, Timeout 0] session)
   = Some ([], Some 1, [CLOSED, CONNECTING], [(60000, Reconcile), (30000, Heartbeat)])"
  by (simp add: session_def handleLogout_def ws_close_def ws_onclose_def connectWebSocket_def)

text \<open>
  Claim C2, as the code has it. When a socket closes, for whatever reason, the indicator
  shows the client disconnected and one reconnect is scheduled, due 5000 ms later; a closed
  socket stays closed, so it closes once. No interval is cleared. A timeout fires no earlier
  than it is due, and a due reconnect makes a new connecting socket the current one.
  \<^verbatim>\<open>handleLogout\<close> and \<^verbatim>\<open>ws.onerror\<close> leave every timeout and every interval in place:
  nothing cancels the reconnect that follows the closure they cause.
\<close>

theorem close_schedules_reconnect:
  "(step (Closed i) s = Some s' \<longrightarrow>
      sockets s' ! i = CLOSED \<and> statusLabel s' = Disconnected \<and>
      timers s' = timers s @ [(now s + 5000, Reconnect)] \<and>
      intervals s' = intervals s \<and>
      step (Closed i) s' = None) \<and>
   (i < length (sockets s) \<and> sockets s ! i = CLOSED \<and> step e s = Some s' \<longrightarrow>
      sockets s' ! i = CLOSED) \<and>
   (step (Timeout k) s = Some s' \<longrightarrow> fst (timers s ! k) \<le> now s) \<and>
   (k < length (timers s) \<and> timers s ! k = (due, Reconnect) \<and> due \<le> now s \<longrightarrow>
      map_option (\<lambda>t. (ws t, sockets t)) (step (Timeout k) s)
        = Some (Some (length (sockets s)), sockets s @ [CONNECTING])) \<and>
   timers (handleLogout s) = timers s \<and>
   intervals (handleLogout s) = intervals s \<and>
   timers (ws_onerror s) = timers s \<and>
   intervals (ws_onerror s) = intervals s"
proof -
  have a: "step (Closed i) s = Some s' \<longrightarrow>
      sockets s' ! i = CLOSED \<and> statusLabel s' = Disconnected \<and>
      timers s' = timers s @ [(now s + 5000, Reconnect)] \<and>
      intervals s' = intervals s \<and>
      step (Closed i) s' = None"
    by (auto simp: ws_onclose_def split: if_splits)
  have b: "i < length (sockets s) \<and> sockets s ! i = CLOSED \<and> step e s = Some s' \<longrightarrow>
      sockets s' ! i = CLOSED"
    using step_keeps_closed [of i s e s'] by blast
  have c: "step (Timeout k) s = Some s' \<longrightarrow> fst (timers s ! k) \<le> now s"
    by (auto split: if_splits)
  have d: "k < length (timers s) \<and> timers s ! k = (due, Reconnect) \<and> due \<le> now s \<longrightarrow>
      map_option (\<lambda>t. (ws t, sockets t)) (step (Timeout k) s)
        = Some (Some (length (sockets s)), sockets s @ [CONNECTING])"
    by (auto simp: connectWebSocket_def)
  have e: "timers (ws_onerror s) = timers s \<and> intervals (ws_onerror s) = intervals s"
    by (simp add: ws_onerror_def ws_close_frame split: option.splits)
  show ?thesis
    using a b c d e by (simp add: handleLogout_frame)
qed

theorem close_schedules_reconnect_witness:
  "(case step (Closed 0) session of
      None \<Rightarrow> False
    | Some s1 \<Rightarrow>
        sockets s1 = [CLOSED] \<and> statusLabel s1 = Disconnected \<and>
        timers s1 = [(5000, Reconnect)] \<and>
        intervals s1 = [(60000, Reconcile), (30000, Heartbeat)] \<and>
        step (Closed 0) s1 = None \<and>
        step (Timeout 0) s1 = None \<and>
        (case step (Elapse 5000) s1 of
           None \<Rightarrow> False
         | Some s2 \<Rightarrow>
             sockets s2 ! 0 = CLOSED \<and> fst (timers s2 ! 0) \<le> now s2 \<and>
             map_option (\<lambda>t. (ws t, sockets t)) (step (Timeout 0) s2)
               = Some (Some 1, [CLOSED, CONNECTING])))"
proof -
  let ?s1 = "ws_onclose (session\<lparr>sockets := [CLOSED]\<rparr>)"
  let ?s2 = "?s1\<lparr>now := 5000\<rparr>"
  let ?s3 = "connectWebSocket (?s2\<lparr>timers := []\<rparr>)"
  have h1: "step (Closed 0) session = Some ?s1"
    by (simp add: session_def)
  have h2: "0 < length (sockets ?s1) \<and> sockets ?s1 ! 0 = CLOSED \<and>
            step (Elapse 5000) ?s1 = Some ?s2"
    by (simp add: session_def ws_onclose_def)
  have h3: "step (Timeout 0) ?s2 = Some ?s3"
    by (simp add: session_def ws_onclose_def)
  have h4: "0 < length (timers ?s2) \<and> timers ?s2 ! 0 = (5000, Reconnect) \<and> 5000 \<le> now ?s2"
    by (simp add: session_def ws_onclose_def)
  have a: "sockets ?s1 ! 0 = CLOSED \<and> statusLabel ?s1 = Disconnected \<and>
      timers ?s1 = timers session @ [(now session + 5000, Reconnect)] \<and>
      intervals ?s1 = intervals session \<and> step (Closed 0) ?s1 = None"
    using close_schedules_reconnect
            [where i = 0 and s = session and s' = ?s1, THEN conjunct1] h1
    by (rule mp)
  have b: "sockets ?s2 ! 0 = CLOSED"
    using close_schedules_reconnect
            [where i = 0 and s = ?s1 and e = "Elapse 5000" and s' = ?s2,
             THEN conjunct2, THEN conjunct1] h2
    by (rule mp)
  have c: "fst (timers ?s2 ! 0) \<le> now ?s2"
    using close_schedules_reconnect
            [where k = 0 and s = ?s2 and s' = ?s3,
             THEN conjunct2, THEN conjunct2, THEN conjunct1] h3
    by (rule mp)
  have d: "map_option (\<lambda>t. (ws t, sockets t)) (step (Timeout 0) ?s2)
             = Some (Some (length (sockets ?s2)), sockets ?s2 @ [CONNECTING])"
    using close_schedules_reconnect
            [where k = 0 and s = ?s2 and due = 5000,
             THEN conjunct2, THEN conjunct2, THEN conjunct2, THEN conjunct1] h4
    by (rule mp)
  show ?thesis
    using a b c d
    by (simp add: session_def ws_onclose_def connectWebSocket_def)
qed


section \<open>Authorization failure\<close>

text \<open>
  The logged-in client gets a 401 on an authorized call; the socket closes, five seconds
  pass, the timeout fires and the new socket opens. No credential is held, and the feed is
  open again: the second socket is open and the indicator shows the client connected.
\<close>

theorem unauthorized_then_feed_reopens_counterexample:
  "map_option (\<lambda>s. (authToken s, ws s, sockets s, statusLabel s))
     (run [Answered (Response 401 ()), Closed 0, Elapse 5000, Timeout 0, Opened 1] session)
   = Some ([], Some 1, [CLOSED, OPEN], Connected)"
  by (simp add: session_def authFetch_response_def handleLogout_def ws_close_def ws_onclose_def
      connectWebSocket_def ws_onopen_def)

text \<open>
  Claim C3, as the code has it. \<^verbatim>\<open>authFetch\<close> sends the credential it holds as a bearer
  token. On a 401 it calls \<^verbatim>\<open>handleLogout\<close> and throws: the credential is cleared in memory
  and in local storage, the user is cleared, and \<^verbatim>\<open>loadPortfolio\<close> does not go on to store
  the body; the answer to any authorized call, the portfolio pull among them, leaves the
  client logged out. With no credential held, \<^verbatim>\<open>authFetch\<close> adds no \<^verbatim>\<open>Authorization\<close>
  header, and no event of the client gives it a credential again: the other assignments to
  \<^verbatim>\<open>authToken\<close> are those of \<^verbatim>\<open>handleLogin\<close> and of the automatic login when the page
  loads.

  Of the feed, \<^verbatim>\<open>handleLogout\<close> calls \<^verbatim>\<open>close()\<close> on the one socket the global \<^verbatim>\<open>ws\<close> names:
  that socket is closing or closed, every other socket keeps its state, and no timeout is
  cancelled. When the close event of the socket arrives, a reconnect is scheduled for 5000 ms
  later, with no credential held.
\<close>

theorem authFetch_unauthorized_logs_out:
  "(authToken s \<noteq> [] \<longrightarrow>
      headers (authFetch_request s rq) ''Authorization'' = Some (''Bearer '' @ authToken s)) \<and>
   authFetch_response (Response 401 b) s = (Inl SessionExpired, handleLogout s) \<and>
   authToken (handleLogout s) = [] \<and>
   currentUser (handleLogout s) = None \<and>
   localStorage (handleLogout s) ''auth_token'' = None \<and>
   (ws s = Some i \<and> i < length (sockets s) \<longrightarrow>
      ws (handleLogout s) = Some i \<and>
      (sockets (handleLogout s) ! i = CLOSING \<or> sockets (handleLogout s) ! i = CLOSED)) \<and>
   portfolioData (loadPortfolio_done k (Response 401 body) s) = portfolioData s \<and>
   (authToken s = [] \<longrightarrow>
      headers (authFetch_request s rq) ''Authorization'' = headers rq ''Authorization'') \<and>
   (authToken s = [] \<and> step e s = Some s' \<longrightarrow> authToken s' = []) \<and>
   step (Answered (Response 401 b)) s = Some (handleLogout s) \<and>
   (k < length (pulls s) \<longrightarrow>
      step (PullDone k (Response 401 body)) s
        = Some (handleLogout (s\<lparr>pulls := take k (pulls s) @ drop (Suc k) (pulls s)\<rparr>))) \<and>
   (ws s \<noteq> Some j \<longrightarrow> sockets (handleLogout s) ! j = sockets s ! j) \<and>
   timers (handleLogout s) = timers s \<and>
   (step (Closed i) (handleLogout s) = Some t \<longrightarrow>
      authToken t = [] \<and> timers t = timers s @ [(now s + 5000, Reconnect)])"
proof -
  have a: "authToken s \<noteq> [] \<longrightarrow>
      headers (authFetch_request s rq) ''Authorization'' = Some (''Bearer '' @ authToken s)"
    by (simp add: authFetch_request_def Let_def)
  have b: "authFetch_response (Response 401 b) s = (Inl SessionExpired, handleLogout s)"
    by (simp add: authFetch_response_def)
  have c: "ws s = Some i \<and> i < length (sockets s) \<longrightarrow>
      ws (handleLogout s) = Some i \<and>
      (sockets (handleLogout s) ! i = CLOSING \<or> sockets (handleLogout s) ! i = CLOSED)"
    using handleLogout_feed [of s i] by (simp add: handleLogout_frame)
  have d: "portfolioData (loadPortfolio_done k (Response 401 body) s) = portfolioData s"
    by (simp add: loadPortfolio_done_def authFetch_response_def Let_def handleLogout_frame)
  have e: "authToken s = [] \<longrightarrow>
      headers (authFetch_request s rq) ''Authorization'' = headers rq ''Authorization''"
    by (simp add: authFetch_request_def Let_def)
  have f: "authToken s = [] \<and> step e s = Some s' \<longrightarrow> authToken s' = []"
    using step_token by blast
  have g: "step (Answered (Response 401 b)) s = Some (handleLogout s)"
    by (simp add: authFetch_response_def)
  have h: "k < length (pulls s) \<longrightarrow>
      step (PullDone k (Response 401 body)) s
        = Some (handleLogout (s\<lparr>pulls := take k (pulls s) @ drop (Suc k) (pulls s)\<rparr>))"
    by (simp add: loadPortfolio_done_def authFetch_response_def Let_def)
  have i: "ws s \<noteq> Some j \<longrightarrow> sockets (handleLogout s) ! j = sockets s ! j"
    by (auto simp: handleLogout_def ws_close_def Let_def nth_list_update split: option.splits)
  have n: "now (handleLogout s) = now s"
    by (simp add: handleLogout_def ws_close_def Let_def split: option.splits)
  have l: "step (Closed i) (handleLogout s) = Some t \<longrightarrow>
      authToken t = [] \<and> timers t = timers s @ [(now s + 5000, Reconnect)]"
    by (auto simp: ws_onclose_def handleLogout_frame n split: if_splits)
  show ?thesis
    using a b c d e f g h i l by (simp add: handleLogout_frame)
qed

theorem authFetch_unauthorized_logs_out_witness:
  "authToken session \<noteq> [] \<and>
   headers (authFetch_request session portfolio_request) ''Authorization''
     = Some ''Bearer tok'' \<and>
   fst (authFetch_response (Response 401 ()) session) = Inl SessionExpired \<and>
   ws session = Some 0 \<and>
   sockets (handleLogout session) ! 0 = CLOSING \<and>
   authToken (handleLogout session) = [] \<and>
   headers (authFetch_request (handleLogout session) portfolio_request) ''Authorization''
     = None \<and>
   map_option authToken (step (Interval 0) (handleLogout session)) = Some [] \<and>
   map_option authToken (step (PullDone 0 (Response 401 None)) (loadPortfolio session))
     = Some [] \<and>
   sockets (handleLogout (session\<lparr>ws := Some 1, sockets := [OPEN, OPEN]\<rparr>)) ! 0 = OPEN \<and>
   map_option timers (step (Closed 0) (handleLogout session)) = Some [(5000, Reconnect)]"
proof -
  let ?s = "handleLogout session"
  let ?p = "loadPortfolio session"
  let ?two = "session\<lparr>ws := Some 1, sockets := [OPEN, OPEN]\<rparr>"
  let ?t = "ws_onclose (?s\<lparr>sockets := [CLOSED]\<rparr>)"
  have h1: "authToken session \<noteq> []"
    and h2: "ws session = Some 0 \<and> 0 < length (sockets session)"
    by (simp_all add: session_def)
  have h3: "authToken ?s = [] \<and> step (Interval 0) ?s = Some (reconcile_tick ?s)"
    by (simp add: handleLogout_frame) (simp add: session_def)
  have h4: "0 < length (pulls ?p)"
    by (simp add: loadPortfolio_def)
  have h5: "ws ?two \<noteq> Some 0"
    by simp
  have h6: "step (Closed 0) ?s = Some ?t"
    by (simp add: session_def handleLogout_def ws_close_def)
  have a: "authToken (reconcile_tick ?s) = []"
    using authFetch_unauthorized_logs_out
            [where s = ?s and e = "Interval 0" and s' = "reconcile_tick ?s",
             THEN conjunct2, THEN conjunct2, THEN conjunct2, THEN conjunct2,
             THEN conjunct2, THEN conjunct2, THEN conjunct2, THEN conjunct2,
             THEN conjunct1] h3
    by (rule mp)
  have p: "step (PullDone 0 (Response 401 None)) ?p
             = Some (handleLogout (?p\<lparr>pulls := take 0 (pulls ?p) @ drop (Suc 0) (pulls ?p)\<rparr>))"
    using authFetch_unauthorized_logs_out
            [where s = ?p and k = 0 and body = None,
             THEN conjunct2, THEN conjunct2, THEN conjunct2, THEN conjunct2,
             THEN conjunct2, THEN conjunct2, THEN conjunct2, THEN conjunct2,
             THEN conjunct2, THEN conjunct2, THEN conjunct1] h4
    by (rule mp)
  have q: "sockets (handleLogout ?two) ! 0 = sockets ?two ! 0"
    using authFetch_unauthorized_logs_out
            [where s = ?two and j = 0,
             THEN conjunct2, THEN conjunct2, THEN conjunct2, THEN conjunct2,
             THEN conjunct2, THEN conjunct2, THEN conjunct2, THEN conjunct2,
             THEN conjunct2, THEN conjunct2, THEN conjunct2, THEN conjunct1] h5
    by (rule mp)
  have r: "authToken ?t = [] \<and> timers ?t = timers session @ [(now session + 5000, Reconnect)]"
    using authFetch_unauthorized_logs_out
            [where s = session and i = 0 and t = ?t,
             THEN conjunct2, THEN conjunct2, THEN conjunct2, THEN conjunct2,
             THEN conjunct2, THEN conjunct2, THEN conjunct2, THEN conjunct2,
             THEN conjunct2, THEN conjunct2, THEN conjunct2, THEN conjunct2,
             THEN conjunct2] h6
    by (rule mp)
  have 1: "map_option authToken (step (PullDone 0 (Response 401 None)) ?p) = Some []"
    by (simp only: p option.map handleLogout_frame)
  have 2: "sockets (handleLogout ?two) ! 0 = OPEN"
    using q by simp
  have 3: "map_option timers (step (Closed 0) ?s) = Some [(5000, Reconnect)]"
    using r by (simp only: h6 option.map) (simp add: session_def)
  have 0: "authToken session \<noteq> [] \<and>
   headers (authFetch_request session portfolio_request) ''Authorization''
     = Some ''Bearer tok'' \<and>
   fst (authFetch_response (Response 401 ()) session) = Inl SessionExpired \<and>
   ws session = Some 0 \<and>
   sockets (handleLogout session) ! 0 = CLOSING \<and>
   authToken (handleLogout session) = [] \<and>
   headers (authFetch_request (handleLogout session) portfolio_request) ''Authorization''
     = None \<and>
   map_option authToken (step (Interval 0) (handleLogout session)) = Some []"
    using authFetch_unauthorized_logs_out
            [where s = session and rq = portfolio_request and b = "()" and i = 0] h1 h2 h3 a
    by (simp add: session_def handleLogout_def ws_close_def authFetch_request_def
        portfolio_request_def)
  show ?thesis
    using 0 1 2 3 by (simp only: simp_thms)
qed


section \<open>The reconciliation interval\<close>

text \<open>
  The interval fires twice and no answer has arrived: two pulls are under way.
\<close>

theorem overlapping_pulls_counterexample:
  "map_option (\<lambda>s. length (pulls s)) (run [Interval 0, Interval 0] session) = Some 2"
  by (simp add: session_def reconcile_tick_def loadPortfolio_def)

text \<open>
  Claim C4, as the code has it. A tick of the 60 s interval with a credential held sends a
  new pull, whatever pulls are still unanswered: no tick is skipped and the number of pulls
  under way is not bounded. Without a credential the tick does nothing. Whenever an answer
  arrives with a status other than 401 and a body that parses, the body replaces the
  snapshot and the pull is no longer under way.
\<close>

theorem reconcile_tick_never_skips:
  "(authToken s \<noteq> [] \<longrightarrow>
      pulls (reconcile_tick s) = pulls s @ [authFetch_request s portfolio_request]) \<and>
   (authToken s = [] \<longrightarrow> reconcile_tick s = s) \<and>
   (st \<noteq> 401 \<longrightarrow>
      portfolioData (loadPortfolio_done k (Response st (Some d)) s) = d \<and>
      pulls (loadPortfolio_done k (Response st (Some d)) s)
        = take k (pulls s) @ drop (Suc k) (pulls s))"
  by (simp add: reconcile_tick_def loadPortfolio_def loadPortfolio_done_def
      authFetch_response_def Let_def)

theorem reconcile_tick_never_skips_witness:
  "authToken session \<noteq> [] \<and>
   pulls (reconcile_tick session) = [authFetch_request session portfolio_request] \<and>
   pulls (reconcile_tick (reconcile_tick session))
     = [authFetch_request session portfolio_request,
        authFetch_request session portfolio_request] \<and>
   reconcile_tick (handleLogout session) = handleLogout session \<and>
   portfolioData
     (loadPortfolio_done 0 (Response 200 (Some (snapshot\<lparr>cash := Fin 5\<rparr>)))
        (reconcile_tick (reconcile_tick session)))
     = snapshot\<lparr>cash := Fin 5\<rparr> \<and>
   length (pulls
     (loadPortfolio_done 0 (Response 200 (Some (snapshot\<lparr>cash := Fin 5\<rparr>)))
        (reconcile_tick (reconcile_tick session)))) = 1"
proof -
  let ?rq = "authFetch_request session portfolio_request"
  let ?s2 = "reconcile_tick (reconcile_tick session)"
  let ?d = "snapshot\<lparr>cash := Fin 5\<rparr>"
  have h1: "authToken session \<noteq> []"
    and h1': "authToken (reconcile_tick session) \<noteq> []"
    by (simp_all add: session_def reconcile_tick_def loadPortfolio_def)
  have h2: "authToken (handleLogout session) = []"
    by (simp add: handleLogout_frame)
  have h3: "(200::nat) \<noteq> 401"
    by simp
  have p0: "pulls session = []"
    by (simp add: session_def)
  have r: "authFetch_request (reconcile_tick session) portfolio_request = ?rq"
    by (simp add: authFetch_request_def reconcile_tick_def loadPortfolio_def)
  have 1: "pulls (reconcile_tick session) = pulls session @ [?rq]"
    using reconcile_tick_never_skips [where s = session, THEN conjunct1] h1
    by (rule mp)
  have 2: "pulls ?s2 = pulls (reconcile_tick session)
             @ [authFetch_request (reconcile_tick session) portfolio_request]"
    using reconcile_tick_never_skips [where s = "reconcile_tick session", THEN conjunct1] h1'
    by (rule mp)
  have 3: "reconcile_tick (handleLogout session) = handleLogout session"
    using reconcile_tick_never_skips
            [where s = "handleLogout session", THEN conjunct2, THEN conjunct1] h2
    by (rule mp)
  have 4: "portfolioData (loadPortfolio_done 0 (Response 200 (Some ?d)) ?s2) = ?d \<and>
           pulls (loadPortfolio_done 0 (Response 200 (Some ?d)) ?s2)
             = take 0 (pulls ?s2) @ drop (Suc 0) (pulls ?s2)"
    using reconcile_tick_never_skips
            [where s = ?s2 and st = 200 and k = 0 and d = ?d, THEN conjunct2, THEN conjunct2] h3
    by (rule mp)
  have 5: "pulls ?s2 = [?rq, ?rq]"
    by (simp add: 1 2 r p0)
  show ?thesis
    using h1 3 4 by (simp add: 1 5 p0)
qed


end
